theory Spec2Isabelle
  imports Main "HOL-Library.Multiset"
begin

section \<open>Data model\<close>

text \<open>
  The two page components (\<^verbatim>\<open>src/src/app/page.tsx\<close> and \<^verbatim>\<open>src/unnamed/part_000\<close>)
  share the types \<^verbatim>\<open>FieldTypes\<close> and \<^verbatim>\<open>Field\<close>. The keys of \<^verbatim>\<open>FieldTypes\<close> are a closed
  enumeration; \<^verbatim>\<open>className?\<close> is an optional property, \<open>None\<close> when it is absent
  (\<^verbatim>\<open>undefined\<close>).
\<close>

definition MAX_FIELDS :: nat where
  "MAX_FIELDS = 10"

datatype FieldType = Text | Textarea | Date

record Field =
  field_id :: string
  field_type :: FieldType
  label :: string
  className :: "string option"

text \<open>
  A JavaScript array of \<^verbatim>\<open>Field\<close> can hold \<^verbatim>\<open>undefined\<close> at run time whatever its
  TypeScript type says, so a slot of the array is a \<open>Field option\<close> and \<open>None\<close> is
  \<^verbatim>\<open>undefined\<close>. Reading a property of \<^verbatim>\<open>undefined\<close> throws a \<^verbatim>\<open>TypeError\<close>.
\<close>

datatype error = TypeError

record state =
  fields' :: "Field option list"
  editingId :: "string option"
  editLabel :: string
  editType :: FieldType
  editClass :: string
  showModal :: bool
  activeId :: "string option"
  console :: "string list"

text \<open>
  The last component is not React state: it collects what the handlers pass to
  \<^verbatim>\<open>console.warn\<close>, oldest first.
\<close>

section \<open>JavaScript primitives used by the handlers\<close>

text \<open>\<^verbatim>\<open>a || b\<close> on an optional string: \<^verbatim>\<open>undefined\<close> and the empty string are falsy.\<close>

definition or_string :: "string option \<Rightarrow> string \<Rightarrow> string" where
  "or_string a b = (case a of None \<Rightarrow> b | Some c \<Rightarrow> if c = [] then b else c)"

text \<open>Decimal rendering of a number inside a template literal.\<close>

definition digit :: "nat \<Rightarrow> char" where
  "digit d = ''0123456789'' ! d"

fun toString_nat :: "nat \<Rightarrow> string" where
  "toString_nat n =
     (if n < 10 then [digit n] else toString_nat (n div 10) @ [digit (n mod 10)])"

declare toString_nat.simps [simp del]

definition toString_int :: "int \<Rightarrow> string" where
  "toString_int i =
     (if i < 0 then CHR ''-'' # toString_nat (nat (- i)) else toString_nat (nat i))"

text \<open>
  \<^verbatim>\<open>Array.prototype.findIndex\<close> and \<^verbatim>\<open>find\<close> with a callback that reads a property of
  the element: the scan runs from index 0, stops at the first element the callback
  accepts, and throws when it meets \<^verbatim>\<open>undefined\<close> before that.
\<close>

fun findIndex_from :: "(Field \<Rightarrow> bool) \<Rightarrow> Field option list \<Rightarrow> int \<Rightarrow> error + int" where
  "findIndex_from p [] k = Inr (- 1)"
| "findIndex_from p (None # xs) k = Inl TypeError"
| "findIndex_from p (Some f # xs) k = (if p f then Inr k else findIndex_from p xs (k + 1))"

definition findIndex :: "(Field \<Rightarrow> bool) \<Rightarrow> Field option list \<Rightarrow> error + int" where
  "findIndex p xs = findIndex_from p xs 0"

fun find_field :: "(Field \<Rightarrow> bool) \<Rightarrow> Field option list \<Rightarrow> error + Field option" where
  "find_field p [] = Inr None"
| "find_field p (None # xs) = Inl TypeError"
| "find_field p (Some f # xs) = (if p f then Inr (Some f) else find_field p xs)"

text \<open>\<^verbatim>\<open>Array.prototype.map\<close> with such a callback.\<close>

fun map_fields :: "(Field \<Rightarrow> Field) \<Rightarrow> Field option list \<Rightarrow> error + Field option list" where
  "map_fields g [] = Inr []"
| "map_fields g (None # xs) = Inl TypeError"
| "map_fields g (Some f # xs) =
     (case map_fields g xs of Inl e \<Rightarrow> Inl e | Inr ys \<Rightarrow> Inr (Some (g f) # ys))"

text \<open>
  \<^verbatim>\<open>Array.prototype.splice(start, deleteCount, ...items)\<close>: a negative \<^verbatim>\<open>start\<close> counts
  from the end and is clamped at 0, a \<^verbatim>\<open>start\<close> beyond the end is clamped to the length,
  and \<^verbatim>\<open>deleteCount\<close> is clamped to what is left after \<^verbatim>\<open>start\<close>. The result is the
  array after the call, paired with the removed elements (the value \<^verbatim>\<open>splice\<close> returns).
\<close>

definition array_splice :: "'a list \<Rightarrow> int \<Rightarrow> int \<Rightarrow> 'a list \<Rightarrow> 'a list \<times> 'a list" where
  "array_splice xs start deleteCount items =
     (let len = int (length xs);
          relativeStart = (if start < 0 then max (len + start) 0 else min start len);
          actualDeleteCount = min (max deleteCount 0) (len - relativeStart)
      in (take (nat relativeStart) xs @ items @ drop (nat (relativeStart + actualDeleteCount)) xs,
          take (nat actualDeleteCount) (drop (nat relativeStart) xs)))"

text \<open>
  \<^verbatim>\<open>arrayMove\<close> is imported from \<^verbatim>\<open>@dnd-kit/sortable\<close>; its body there is
  \<^verbatim>\<open>
  const newArray = array.slice();
  newArray.splice(to < 0 ? newArray.length + to : to, 0, newArray.splice(from, 1)[0]);
  return newArray;
  \<close>
  The first argument of the outer \<^verbatim>\<open>splice\<close> is evaluated before the inner \<^verbatim>\<open>splice\<close>
  shortens the array, and \<^verbatim>\<open>[0]\<close> of an empty array of removed elements is
  \<^verbatim>\<open>undefined\<close>.
\<close>

definition arrayMove :: "'a option list \<Rightarrow> int \<Rightarrow> int \<Rightarrow> 'a option list" where
  "arrayMove array from to =
     (let newArray = array;
          target = (if to < 0 then int (length newArray) + to else to);
          (newArray1, removed) = array_splice newArray from 1 [];
          item = (case removed of [] \<Rightarrow> None | x # _ \<Rightarrow> x)
      in fst (array_splice newArray1 target 0 [item]))"

section \<open>Rendering dispatch\<close>

text \<open>
  \<^verbatim>\<open>fieldTypes\<close> maps a type tag to a component; what a component shows is the widget it
  builds, with its placeholder (where it has one) and its class name.
\<close>

datatype widget = Input string string | TextareaWidget string string | Calendar string

fun fieldTypes :: "FieldType \<Rightarrow> string \<Rightarrow> string option \<Rightarrow> widget" where
  "fieldTypes Text lbl cls = Input lbl (or_string cls ''w-full'')"
| "fieldTypes Textarea lbl cls = TextareaWidget lbl (or_string cls ''w-full'')"
| "fieldTypes Date lbl cls = Calendar (or_string cls ''w-full'')"

definition render :: "Field \<Rightarrow> widget" where
  "render f = fieldTypes (field_type f) (label f) (className f)"

section \<open>The component of src/src/app/page.tsx\<close>

definition availableFields :: "Field list" where
  "availableFields =
     [\<lparr>field_id = ''text'', field_type = Text, label = ''Text Field'', className = None\<rparr>,
      \<lparr>field_id = ''textarea'', field_type = Textarea, label = ''Textarea Field'', className = None\<rparr>,
      \<lparr>field_id = ''date'', field_type = Date, label = ''Date Field'', className = None\<rparr>]"

definition initial :: state where
  "initial =
     \<lparr>fields' = [], editingId = None, editLabel = [], editType = Text, editClass = [],
      showModal = False, activeId = None, console = []\<rparr>"

definition handleDragStart :: "string \<Rightarrow> state \<Rightarrow> state" where
  "handleDragStart active_id s = s\<lparr>activeId := Some active_id\<rparr>"

text \<open>
  \<^verbatim>\<open>handleDragEnd\<close> receives the dragged id and the drop target, \<open>None\<close> when \<^verbatim>\<open>over\<close> is
  \<^verbatim>\<open>null\<close>. The updater passed to \<^verbatim>\<open>setFields\<close> runs on the current list.
\<close>

definition handleDragEnd :: "string \<Rightarrow> string option \<Rightarrow> state \<Rightarrow> error + state" where
  "handleDragEnd active_id over s =
     (let s1 = s\<lparr>activeId := None\<rparr> in
      case over of
        None \<Rightarrow> Inr s1
      | Some over_id \<Rightarrow>
          if active_id \<noteq> over_id then
            (case findIndex (\<lambda>item. field_id item = active_id) (fields' s1) of
               Inl e \<Rightarrow> Inl e
             | Inr oldIndex \<Rightarrow>
                 (case findIndex (\<lambda>item. field_id item = over_id) (fields' s1) of
                    Inl e \<Rightarrow> Inl e
                  | Inr newIndex \<Rightarrow> Inr (s1\<lparr>fields' := arrayMove (fields' s1) oldIndex newIndex\<rparr>)))
          else Inr s1)"

text \<open>
  \<^verbatim>\<open>handleAddField\<close> receives the template object and reads the clock (\<^verbatim>\<open>Date.now()\<close>),
  here the argument \<open>now\<close>.
\<close>

definition handleAddField :: "Field \<Rightarrow> int \<Rightarrow> state \<Rightarrow> state" where
  "handleAddField fieldType now s =
     (if length (fields' s) \<ge> MAX_FIELDS then
        s\<lparr>console := console s @ [''Maximum of '' @ toString_nat MAX_FIELDS @ '' fields reached'']\<rparr>
      else
        (let newField = fieldType
               \<lparr>field_id := field_id fieldType @ ''-'' @ toString_int now,
                label := label fieldType @ '' '' @ toString_nat (length (fields' s) + 1)\<rparr>
         in s\<lparr>fields' := fields' s @ [Some newField]\<rparr>))"

definition openEditModal :: "string \<Rightarrow> state \<Rightarrow> error + state" where
  "openEditModal i s =
     (case find_field (\<lambda>f. field_id f = i) (fields' s) of
        Inl e \<Rightarrow> Inl e
      | Inr None \<Rightarrow> Inr s
      | Inr (Some field) \<Rightarrow>
          Inr (s\<lparr>editingId := Some i, editLabel := label field, editType := field_type field,
                 editClass := or_string (className field) [], showModal := True\<rparr>))"

text \<open>The change handlers of the dialog's three inputs.\<close>

definition setEditLabel :: "string \<Rightarrow> state \<Rightarrow> state" where
  "setEditLabel v s = s\<lparr>editLabel := v\<rparr>"

definition setEditType :: "FieldType \<Rightarrow> state \<Rightarrow> state" where
  "setEditType v s = s\<lparr>editType := v\<rparr>"

definition setEditClass :: "string \<Rightarrow> state \<Rightarrow> state" where
  "setEditClass v s = s\<lparr>editClass := v\<rparr>"

definition handleSaveEdit :: "state \<Rightarrow> error + state" where
  "handleSaveEdit s =
     (case map_fields
             (\<lambda>f. if Some (field_id f) = editingId s
                  then f\<lparr>label := editLabel s, field_type := editType s,
                         className := Some (editClass s)\<rparr>
                  else f)
             (fields' s) of
        Inl e \<Rightarrow> Inl e
      | Inr fs \<Rightarrow> Inr (s\<lparr>fields' := fs, showModal := False\<rparr>))"

section \<open>The component of src/unnamed/part_000\<close>

text \<open>
  This variant starts from three placed fields, has no palette, checks both indices
  before it moves, and resets the draft when it saves. Its \<^verbatim>\<open>openEditModal\<close> and
  \<^verbatim>\<open>handleDragStart\<close> are those above. In \<^verbatim>\<open>handleDragEnd\<close> the target id is
  \<^verbatim>\<open>over?.id\<close>, which is \<^verbatim>\<open>undefined\<close> (\<open>None\<close>) when there is no target and then equals
  no field's id.
\<close>

definition initial_fields_part_000 :: "Field list" where
  "initial_fields_part_000 =
     [\<lparr>field_id = ''1'', field_type = Text, label = ''Text Field'', className = Some ''w-full''\<rparr>,
      \<lparr>field_id = ''2'', field_type = Textarea, label = ''Textarea Field'', className = Some ''w-full''\<rparr>,
      \<lparr>field_id = ''3'', field_type = Date, label = ''Date Field'', className = Some ''w-full''\<rparr>]"

definition initial_part_000 :: state where
  "initial_part_000 =
     \<lparr>fields' = map Some initial_fields_part_000,
      editingId = None, editLabel = [], editType = Text, editClass = [],
      showModal = False, activeId = None, console = []\<rparr>"

definition handleDragEnd_part_000 :: "string \<Rightarrow> string option \<Rightarrow> state \<Rightarrow> error + state" where
  "handleDragEnd_part_000 active_id over s =
     (let s1 = s\<lparr>activeId := None\<rparr> in
      if Some active_id \<noteq> over then
        (case findIndex (\<lambda>f. field_id f = active_id) (fields' s1) of
           Inl e \<Rightarrow> Inl e
         | Inr oldIndex \<Rightarrow>
             (case findIndex (\<lambda>f. Some (field_id f) = over) (fields' s1) of
                Inl e \<Rightarrow> Inl e
              | Inr newIndex \<Rightarrow>
                  if oldIndex \<noteq> - 1 \<and> newIndex \<noteq> - 1
                  then Inr (s1\<lparr>fields' := arrayMove (fields' s1) oldIndex newIndex\<rparr>)
                  else Inr s1))
      else Inr s1)"

definition handleSaveEdit_part_000 :: "state \<Rightarrow> error + state" where
  "handleSaveEdit_part_000 s =
     (case map_fields
             (\<lambda>f. if Some (field_id f) = editingId s
                  then f\<lparr>label := editLabel s, field_type := editType s,
                         className := Some (editClass s)\<rparr>
                  else f)
             (fields' s) of
        Inl e \<Rightarrow> Inl e
      | Inr fs \<Rightarrow>
          Inr (s\<lparr>fields' := fs, editingId := None, editLabel := [], editType := Text,
                 editClass := [], showModal := False\<rparr>))"

section \<open>Event sequences and vocabulary of the statements\<close>

text \<open>Sequencing of two handlers: an uncaught exception ends the interaction.\<close>

definition and_then :: "error + 'a \<Rightarrow> ('a \<Rightarrow> error + 'b) \<Rightarrow> error + 'b" where
  "and_then r k = (case r of Inl e \<Rightarrow> Inl e | Inr x \<Rightarrow> k x)"

text \<open>A sequence of clicks on palette entries, each with the clock value it reads.\<close>

fun add_all :: "(Field \<times> int) list \<Rightarrow> state \<Rightarrow> state" where
  "add_all [] s = s"
| "add_all ((fieldType, now) # cs) s = add_all cs (handleAddField fieldType now s)"

text \<open>
  Opening the dialog on a field, typing a new label and pressing Save, in either
  component.
\<close>

definition edit_label :: "string \<Rightarrow> string \<Rightarrow> state \<Rightarrow> error + state" where
  "edit_label i v s = and_then (openEditModal i s) (\<lambda>s1. handleSaveEdit (setEditLabel v s1))"

definition edit_label_part_000 :: "string \<Rightarrow> string \<Rightarrow> state \<Rightarrow> error + state" where
  "edit_label_part_000 i v s =
     and_then (openEditModal i s) (\<lambda>s1. handleSaveEdit_part_000 (setEditLabel v s1))"

text \<open>The class name a widget is given.\<close>

fun widget_className :: "widget \<Rightarrow> string" where
  "widget_className (Input lbl cls) = cls"
| "widget_className (TextareaWidget lbl cls) = cls"
| "widget_className (Calendar cls) = cls"

text \<open>
  Positions in a list of fields: the index of the first field with a given id (the
  length of the list when there is none), the list without the element at an index,
  and the list with an element put in at an index.
\<close>

definition index_of :: "string \<Rightarrow> Field list \<Rightarrow> nat" where
  "index_of a fs = length (takeWhile (\<lambda>f. field_id f \<noteq> a) fs)"

definition remove_at :: "nat \<Rightarrow> 'a list \<Rightarrow> 'a list" where
  "remove_at k xs = take k xs @ drop (Suc k) xs"

definition insert_at :: "nat \<Rightarrow> 'a \<Rightarrow> 'a list \<Rightarrow> 'a list" where
  "insert_at k x xs = take k xs @ x # drop k xs"

section \<open>The primitives on arrays without \<^verbatim>\<open>undefined\<close>\<close>

lemma findIndex_from_Some:
  "findIndex_from p (map Some fs) k =
     Inr (if \<exists>f \<in> set fs. p f then k + int (length (takeWhile (\<lambda>f. \<not> p f) fs)) else - 1)"
  by (induction fs arbitrary: k) auto

lemma findIndex_id_Some:
  "findIndex (\<lambda>f. field_id f = a) (map Some fs) =
     Inr (if a \<in> field_id ` set fs then int (index_of a fs) else - 1)"
  by (auto simp: findIndex_def findIndex_from_Some index_of_def)

lemma findIndex_over_Some:
  "findIndex (\<lambda>f. Some (field_id f) = Some a) (map Some fs) =
     Inr (if a \<in> field_id ` set fs then int (index_of a fs) else - 1)"
  by (auto simp: findIndex_def findIndex_from_Some index_of_def)

lemma findIndex_over_None:
  "findIndex (\<lambda>f. Some (field_id f) = None) (map Some fs) = Inr (- 1)"
  by (simp add: findIndex_def findIndex_from_Some)

lemma find_field_Some: "find_field p (map Some fs) = Inr (List.find p fs)"
  by (induction fs) auto

lemma map_fields_Some: "map_fields g (map Some fs) = Inr (map Some (map g fs))"
  by (induction fs) auto

lemma index_of_less: "a \<in> field_id ` set fs \<Longrightarrow> index_of a fs < length fs"
  unfolding index_of_def by (induction fs) auto

lemma index_of_nth: "a \<in> field_id ` set fs \<Longrightarrow> field_id (fs ! index_of a fs) = a"
  unfolding index_of_def by (induction fs) auto

lemma index_of_distinct:
  "distinct (map field_id fs) \<Longrightarrow> k < length fs \<Longrightarrow> index_of (field_id (fs ! k)) fs = k"
  unfolding index_of_def
proof (induction fs arbitrary: k)
  case Nil then show ?case by simp
next
  case (Cons f fs)
  then show ?case by (cases k) auto
qed


section \<open>What \<^verbatim>\<open>arrayMove\<close> computes\<close>

lemma splice_remove:
  assumes "i < length xs"
  shows "array_splice xs (int i) 1 [] = (remove_at i xs, [xs ! i])"
proof -
  have a: "min (int i) (int (length xs)) = int i" using assms by simp
  have b: "min 1 (int (length xs) - int i) = 1" using assms by simp
  have c: "take (Suc 0) (drop i xs) = [xs ! i]"
    using assms by (simp add: take_Suc_conv_app_nth)
  show ?thesis
    by (simp add: array_splice_def Let_def a b remove_at_def c nat_add_distrib)
qed

lemma splice_insert:
  assumes "j \<le> length ys"
  shows "array_splice ys (int j) 0 [x] = (insert_at j x ys, [])"
proof -
  have a: "min (int j) (int (length ys)) = int j" using assms by simp
  have b: "min 0 (int (length ys) - int j) = 0" using assms by simp
  show ?thesis
    by (simp add: array_splice_def Let_def a b insert_at_def)
qed

lemma length_remove_at: "i < length xs \<Longrightarrow> length (remove_at i xs) = length xs - 1"
  by (simp add: remove_at_def)

lemma arrayMove_valid:
  assumes "i < length xs" "j < length xs"
  shows "arrayMove xs (int i) (int j) = insert_at j (xs ! i) (remove_at i xs)"
proof -
  have "j \<le> length (remove_at i xs)"
    using assms by (simp add: length_remove_at)
  then have "array_splice (remove_at i xs) (int j) 0 [xs ! i] = (insert_at j (xs ! i) (remove_at i xs), [])"
    by (rule splice_insert)
  then show ?thesis
    by (simp add: arrayMove_def Let_def splice_remove [OF assms(1)])
qed







lemma length_insert_at: "length (insert_at j x ys) = Suc (length ys)"
  by (simp add: insert_at_def)

lemma nth_insert_at: "j \<le> length ys \<Longrightarrow> insert_at j x ys ! j = x"
  by (simp add: insert_at_def nth_append)

lemma remove_insert_at: "j \<le> length ys \<Longrightarrow> remove_at j (insert_at j x ys) = ys"
  by (simp add: insert_at_def remove_at_def)

lemma insert_remove_at: "i < length xs \<Longrightarrow> insert_at i (xs ! i) (remove_at i xs) = xs"
  by (simp add: insert_at_def remove_at_def Cons_nth_drop_Suc)

lemma mset_insert_at: "mset (insert_at j x ys) = add_mset x (mset ys)"
proof -
  have "mset (take j ys) + mset (drop j ys) = mset ys"
    by (metis append_take_drop_id mset_append)
  then show ?thesis by (simp add: insert_at_def)
qed

lemma mset_remove_at: "i < length xs \<Longrightarrow> add_mset (xs ! i) (mset (remove_at i xs)) = mset xs"
  by (metis insert_remove_at mset_insert_at)

lemma map_insert_at: "map f (insert_at j x ys) = insert_at j (f x) (map f ys)"
  by (simp add: insert_at_def take_map drop_map)

lemma map_remove_at: "map f (remove_at i xs) = remove_at i (map f xs)"
  by (simp add: remove_at_def take_map drop_map)

lemma arrayMove_Some:
  assumes "i < length fs" "j < length fs"
  shows "arrayMove (map Some fs) (int i) (int j) = map Some (insert_at j (fs ! i) (remove_at i fs))"
  using assms by (simp add: arrayMove_valid map_insert_at map_remove_at)

lemma moved_length:
  "i < length fs \<Longrightarrow> length (insert_at j (fs ! i) (remove_at i fs)) = length fs"
  by (simp add: length_insert_at length_remove_at)

lemma moved_mset:
  "i < length fs \<Longrightarrow> mset (insert_at j (fs ! i) (remove_at i fs)) = mset fs"
  by (simp add: mset_insert_at mset_remove_at)

lemma moved_nth:
  "i < length fs \<Longrightarrow> j < length fs \<Longrightarrow> insert_at j (fs ! i) (remove_at i fs) ! j = fs ! i"
  by (simp add: nth_insert_at length_remove_at)

lemma moved_rest:
  "i < length fs \<Longrightarrow> j < length fs \<Longrightarrow>
     remove_at j (insert_at j (fs ! i) (remove_at i fs)) = remove_at i fs"
  by (simp add: remove_insert_at length_remove_at)

lemma moved_back:
  assumes "i < length fs" "j < length fs"
  shows "insert_at i (insert_at j (fs ! i) (remove_at i fs) ! j)
           (remove_at j (insert_at j (fs ! i) (remove_at i fs))) = fs"
  using assms by (simp add: moved_nth moved_rest insert_remove_at)

section \<open>Dropping a field on another field\<close>

lemma handleDragEnd_present:
  assumes "fields' s = map Some fs" "a \<in> field_id ` set fs" "b \<in> field_id ` set fs" "a \<noteq> b"
  shows "handleDragEnd a (Some b) s =
           Inr (s\<lparr>activeId := None,
                  fields' := map Some (insert_at (index_of b fs) (fs ! index_of a fs)
                                         (remove_at (index_of a fs) fs))\<rparr>)"
  using assms
  by (simp add: handleDragEnd_def findIndex_id_Some arrayMove_Some index_of_less)

lemma handleDragEnd_part_000_present:
  assumes "fields' s = map Some fs" "a \<in> field_id ` set fs" "b \<in> field_id ` set fs" "a \<noteq> b"
  shows "handleDragEnd_part_000 a (Some b) s =
           Inr (s\<lparr>activeId := None,
                  fields' := map Some (insert_at (index_of b fs) (fs ! index_of a fs)
                                         (remove_at (index_of a fs) fs))\<rparr>)"
  using assms
  by (simp add: handleDragEnd_part_000_def findIndex_id_Some findIndex_over_Some
        arrayMove_Some index_of_less)

text \<open>
  C4. When the list holds a field with the dragged id and a field with the target id, and
  the two ids differ, the drop (in both components) moves one element: the first field
  with the dragged id ends at the index where the first field with the target id was,
  the length is the same, and the list without the moved element is the old list
  without it, so every other field keeps its value and the others keep their order.
\<close>

theorem drop_relocates:
  assumes "fields' s = map Some fs" "a \<in> field_id ` set fs" "b \<in> field_id ` set fs" "a \<noteq> b"
  shows "\<exists>fs'. handleDragEnd a (Some b) s = Inr (s\<lparr>activeId := None, fields' := map Some fs'\<rparr>)
           \<and> handleDragEnd_part_000 a (Some b) s = Inr (s\<lparr>activeId := None, fields' := map Some fs'\<rparr>)
           \<and> length fs' = length fs
           \<and> fs' ! index_of b fs = fs ! index_of a fs
           \<and> remove_at (index_of b fs) fs' = remove_at (index_of a fs) fs"
proof -
  let ?i = "index_of a fs" and ?j = "index_of b fs"
  let ?fs' = "insert_at ?j (fs ! ?i) (remove_at ?i fs)"
  have i: "?i < length fs" and j: "?j < length fs"
    using assms by (simp_all add: index_of_less)
  have "handleDragEnd a (Some b) s = Inr (s\<lparr>activeId := None, fields' := map Some ?fs'\<rparr>)"
    using assms by (rule handleDragEnd_present)
  moreover have "handleDragEnd_part_000 a (Some b) s = Inr (s\<lparr>activeId := None, fields' := map Some ?fs'\<rparr>)"
    using assms by (rule handleDragEnd_part_000_present)
  moreover have "length ?fs' = length fs" using i by (rule moved_length)
  moreover have "?fs' ! ?j = fs ! ?i" using i j by (rule moved_nth)
  moreover have "remove_at ?j ?fs' = remove_at ?i fs" using i j by (rule moved_rest)
  ultimately show ?thesis by blast
qed

theorem drop_relocates_witness:
  "\<exists>fs'. handleDragEnd ''3'' (Some ''1'') initial_part_000
             = Inr (initial_part_000\<lparr>activeId := None, fields' := map Some fs'\<rparr>)
         \<and> handleDragEnd_part_000 ''3'' (Some ''1'') initial_part_000
             = Inr (initial_part_000\<lparr>activeId := None, fields' := map Some fs'\<rparr>)
         \<and> length fs' = 3
         \<and> fs' ! 0 = initial_fields_part_000 ! 2
         \<and> remove_at 0 fs' = [initial_fields_part_000 ! 0, initial_fields_part_000 ! 1]"
  using drop_relocates [of initial_part_000 initial_fields_part_000 "''3''" "''1''"]
  by (simp add: initial_part_000_def initial_fields_part_000_def index_of_def remove_at_def
        numeral_3_eq_3)

section \<open>Dropping a field and dropping it back\<close>

lemma handleDragEnd_same: "handleDragEnd a (Some a) s = Inr (s\<lparr>activeId := None\<rparr>)"
  by (simp add: handleDragEnd_def)

lemma handleDragEnd_part_000_same:
  "handleDragEnd_part_000 a (Some a) s = Inr (s\<lparr>activeId := None\<rparr>)"
  by (simp add: handleDragEnd_part_000_def)

lemma moved_distinct:
  assumes "distinct (map field_id fs)" "i < length fs"
  shows "distinct (map field_id (insert_at j (fs ! i) (remove_at i fs)))"
proof -
  have "mset (map field_id (insert_at j (fs ! i) (remove_at i fs))) = mset (map field_id fs)"
    using assms(2) by (simp only: mset_map moved_mset)
  then show ?thesis
    using assms(1) by (metis mset_eq_imp_distinct_iff)
qed

lemma nth_id_mem: "k < length fs \<Longrightarrow> field_id (fs ! k) \<in> field_id ` set fs"
  by simp

lemma distinct_ids_nth:
  assumes "distinct (map field_id fs)" "i < length fs" "j < length fs" "i \<noteq> j"
  shows "field_id (fs ! i) \<noteq> field_id (fs ! j)"
  using assms nth_eq_iff_index_eq [of "map field_id fs" i j] by simp

lemma twice_restores:
  assumes same: "\<And>a s. H a (Some a) s = Inr (s\<lparr>activeId := None\<rparr>)"
    and present: "\<And>s fs a b. fields' s = map Some fs \<Longrightarrow> a \<in> field_id ` set fs \<Longrightarrow>
        b \<in> field_id ` set fs \<Longrightarrow> a \<noteq> b \<Longrightarrow>
        H a (Some b) s = Inr (s\<lparr>activeId := None,
           fields' := map Some (insert_at (index_of b fs) (fs ! index_of a fs)
                                   (remove_at (index_of a fs) fs))\<rparr>)"
    and s: "fields' s = map Some fs"
    and d: "distinct (map field_id fs)"
    and j: "j < length fs" and i: "i < length fs"
  shows "\<exists>s1 fs1. H (field_id (fs ! j)) (Some (field_id (fs ! i))) s = Inr s1
           \<and> fields' s1 = map Some fs1 \<and> length fs1 = length fs \<and> fs1 ! i = fs ! j
           \<and> (\<exists>s2. H (field_id (fs ! j)) (Some (field_id (fs1 ! j))) s1 = Inr s2
                  \<and> fields' s2 = fields' s)"
proof (cases "i = j")
  case True
  let ?s1 = "s\<lparr>activeId := None\<rparr>"
  have "H (field_id (fs ! j)) (Some (field_id (fs ! i))) s = Inr ?s1"
    using True same by simp
  moreover have "fields' ?s1 = map Some fs" using s by simp
  moreover have "H (field_id (fs ! j)) (Some (field_id (fs ! j))) ?s1 = Inr (?s1\<lparr>activeId := None\<rparr>)"
    by (rule same)
  moreover have "fields' (?s1\<lparr>activeId := None\<rparr>) = fields' s" by simp
  ultimately show ?thesis using True by blast
next
  case False
  let ?a = "field_id (fs ! j)" and ?b = "field_id (fs ! i)"
  let ?fs1 = "insert_at i (fs ! j) (remove_at j fs)"
  let ?s1 = "s\<lparr>activeId := None, fields' := map Some ?fs1\<rparr>"
  have ab: "?a \<noteq> ?b"
    using distinct_ids_nth [OF d j i] False by simp
  have ia: "index_of ?a fs = j" and ib: "index_of ?b fs = i"
    using d i j by (simp_all add: index_of_distinct)
  have step1: "H ?a (Some ?b) s = Inr ?s1"
    using present [OF s nth_id_mem [OF j] nth_id_mem [OF i] ab] by (simp only: ia ib)
  have len1: "length ?fs1 = length fs" using j by (rule moved_length)
  have at_i: "?fs1 ! i = fs ! j" using j i by (rule moved_nth)
  have d1: "distinct (map field_id ?fs1)" using d j by (rule moved_distinct)
  have i1: "i < length ?fs1" and j1: "j < length ?fs1" using i j len1 by simp_all
  let ?b' = "field_id (?fs1 ! j)"
  have a1: "?a = field_id (?fs1 ! i)" using at_i by simp
  have ab': "?a \<noteq> ?b'"
    unfolding a1 using distinct_ids_nth [OF d1 i1 j1] False by simp
  have ia1: "index_of ?a ?fs1 = i"
    unfolding a1 using d1 i1 by (rule index_of_distinct)
  have ib1: "index_of ?b' ?fs1 = j"
    using d1 j1 by (rule index_of_distinct)
  have s1: "fields' ?s1 = map Some ?fs1" by simp
  have restored: "insert_at j (?fs1 ! i) (remove_at i ?fs1) = fs"
    using j i by (rule moved_back)
  have am: "?a \<in> field_id ` set ?fs1"
    unfolding a1 using i1 by (rule nth_id_mem)
  have step2: "H ?a (Some ?b') ?s1 = Inr (?s1\<lparr>activeId := None, fields' := map Some fs\<rparr>)"
    using present [OF s1 am nth_id_mem [OF j1] ab'] by (simp only: ia1 ib1 restored)
  have "fields' (?s1\<lparr>activeId := None, fields' := map Some fs\<rparr>) = fields' s"
    using s by simp
  with step1 step2 s1 len1 at_i show ?thesis by blast
qed

text \<open>
  C9, as amended. In a list whose ids are pairwise distinct (the invariant of the field
  list),
  dragging the field at index \<open>j\<close> onto the field at index \<open>i\<close> and then dragging the
  same field onto the field that now stands at index \<open>j\<close> gives back the original list,
  in both components. The first drop puts the dragged field at index \<open>i\<close>.
\<close>

theorem drop_back_restores:
  assumes "fields' s = map Some fs" "distinct (map field_id fs)" "j < length fs" "i < length fs"
  shows "(\<exists>s1 fs1. handleDragEnd (field_id (fs ! j)) (Some (field_id (fs ! i))) s = Inr s1
            \<and> fields' s1 = map Some fs1 \<and> length fs1 = length fs \<and> fs1 ! i = fs ! j
            \<and> (\<exists>s2. handleDragEnd (field_id (fs ! j)) (Some (field_id (fs1 ! j))) s1 = Inr s2
                   \<and> fields' s2 = fields' s))
       \<and> (\<exists>s1 fs1. handleDragEnd_part_000 (field_id (fs ! j)) (Some (field_id (fs ! i))) s = Inr s1
            \<and> fields' s1 = map Some fs1 \<and> length fs1 = length fs \<and> fs1 ! i = fs ! j
            \<and> (\<exists>s2. handleDragEnd_part_000 (field_id (fs ! j)) (Some (field_id (fs1 ! j))) s1 = Inr s2
                   \<and> fields' s2 = fields' s))"
proof
  show "\<exists>s1 fs1. handleDragEnd (field_id (fs ! j)) (Some (field_id (fs ! i))) s = Inr s1
            \<and> fields' s1 = map Some fs1 \<and> length fs1 = length fs \<and> fs1 ! i = fs ! j
            \<and> (\<exists>s2. handleDragEnd (field_id (fs ! j)) (Some (field_id (fs1 ! j))) s1 = Inr s2
                   \<and> fields' s2 = fields' s)"
    using handleDragEnd_same handleDragEnd_present assms by (rule twice_restores)
  show "\<exists>s1 fs1. handleDragEnd_part_000 (field_id (fs ! j)) (Some (field_id (fs ! i))) s = Inr s1
            \<and> fields' s1 = map Some fs1 \<and> length fs1 = length fs \<and> fs1 ! i = fs ! j
            \<and> (\<exists>s2. handleDragEnd_part_000 (field_id (fs ! j)) (Some (field_id (fs1 ! j))) s1 = Inr s2
                   \<and> fields' s2 = fields' s)"
    using handleDragEnd_part_000_same handleDragEnd_part_000_present assms by (rule twice_restores)
qed


theorem drop_back_restores_witness:
  "(\<exists>s1 fs1. handleDragEnd (field_id (initial_fields_part_000 ! 0))
                 (Some (field_id (initial_fields_part_000 ! 2))) initial_part_000 = Inr s1
            \<and> fields' s1 = map Some fs1 \<and> length fs1 = length initial_fields_part_000
            \<and> fs1 ! 2 = initial_fields_part_000 ! 0
            \<and> (\<exists>s2. handleDragEnd (field_id (initial_fields_part_000 ! 0))
                        (Some (field_id (fs1 ! 0))) s1 = Inr s2
                   \<and> fields' s2 = fields' initial_part_000))
       \<and> (\<exists>s1 fs1. handleDragEnd_part_000 (field_id (initial_fields_part_000 ! 0))
                 (Some (field_id (initial_fields_part_000 ! 2))) initial_part_000 = Inr s1
            \<and> fields' s1 = map Some fs1 \<and> length fs1 = length initial_fields_part_000
            \<and> fs1 ! 2 = initial_fields_part_000 ! 0
            \<and> (\<exists>s2. handleDragEnd_part_000 (field_id (initial_fields_part_000 ! 0))
                        (Some (field_id (fs1 ! 0))) s1 = Inr s2
                   \<and> fields' s2 = fields' initial_part_000))"
proof -
  have 1: "fields' initial_part_000 = map Some initial_fields_part_000"
    by (simp add: initial_part_000_def)
  have 2: "distinct (map field_id initial_fields_part_000)"
    by (simp add: initial_fields_part_000_def)
  have 3: "0 < length initial_fields_part_000" and 4: "2 < length initial_fields_part_000"
    by (simp_all add: initial_fields_part_000_def)
  show ?thesis by (rule drop_back_restores [OF 1 2 3 4])
qed

text \<open>
  C9, as stated for every list, fails on a list that holds the dragged id twice, which
  two clicks at the same clock value produce: after the first drop the field at the
  original index has the dragged id itself, so the drop back is a drop of an id on
  itself and moves nothing.
\<close>

theorem drop_back_duplicate_id:
  "fields' (add_all [(availableFields ! 0, 5), (availableFields ! 0, 5), (availableFields ! 2, 6)] initial)
     = [Some \<lparr>field_id = ''text-5'', field_type = Text, label = ''Text Field 1'', className = None\<rparr>,
        Some \<lparr>field_id = ''text-5'', field_type = Text, label = ''Text Field 2'', className = None\<rparr>,
        Some \<lparr>field_id = ''date-6'', field_type = Date, label = ''Date Field 3'', className = None\<rparr>]
   \<and> handleDragEnd ''text-5'' (Some ''date-6'')
        (add_all [(availableFields ! 0, 5), (availableFields ! 0, 5), (availableFields ! 2, 6)] initial)
     = Inr ((add_all [(availableFields ! 0, 5), (availableFields ! 0, 5), (availableFields ! 2, 6)] initial)
         \<lparr>activeId := None,
          fields' :=
            [Some \<lparr>field_id = ''text-5'', field_type = Text, label = ''Text Field 2'', className = None\<rparr>,
             Some \<lparr>field_id = ''date-6'', field_type = Date, label = ''Date Field 3'', className = None\<rparr>,
             Some \<lparr>field_id = ''text-5'', field_type = Text, label = ''Text Field 1'', className = None\<rparr>]\<rparr>)
   \<and> handleDragEnd ''text-5'' (Some ''text-5'')
        ((add_all [(availableFields ! 0, 5), (availableFields ! 0, 5), (availableFields ! 2, 6)] initial)
         \<lparr>activeId := None,
          fields' :=
            [Some \<lparr>field_id = ''text-5'', field_type = Text, label = ''Text Field 2'', className = None\<rparr>,
             Some \<lparr>field_id = ''date-6'', field_type = Date, label = ''Date Field 3'', className = None\<rparr>,
             Some \<lparr>field_id = ''text-5'', field_type = Text, label = ''Text Field 1'', className = None\<rparr>]\<rparr>)
     = Inr ((add_all [(availableFields ! 0, 5), (availableFields ! 0, 5), (availableFields ! 2, 6)] initial)
         \<lparr>activeId := None,
          fields' :=
            [Some \<lparr>field_id = ''text-5'', field_type = Text, label = ''Text Field 2'', className = None\<rparr>,
             Some \<lparr>field_id = ''date-6'', field_type = Date, label = ''Date Field 3'', className = None\<rparr>,
             Some \<lparr>field_id = ''text-5'', field_type = Text, label = ''Text Field 1'', className = None\<rparr>]\<rparr>)
   \<and> [Some \<lparr>field_id = ''text-5'', field_type = Text, label = ''Text Field 2'', className = None\<rparr>,
        Some \<lparr>field_id = ''date-6'', field_type = Date, label = ''Date Field 3'', className = None\<rparr>,
        Some \<lparr>field_id = ''text-5'', field_type = Text, label = ''Text Field 1'', className = None\<rparr>]
     \<noteq> fields' (add_all [(availableFields ! 0, 5), (availableFields ! 0, 5), (availableFields ! 2, 6)] initial)"
  by (simp add: initial_def MAX_FIELDS_def availableFields_def handleAddField_def Let_def
        toString_int_def toString_nat.simps digit_def handleDragEnd_def findIndex_def
        arrayMove_def array_splice_def)

section \<open>Adding fields from the palette\<close>

lemma length_handleAddField:
  "length (fields' (handleAddField t now s)) =
     (if MAX_FIELDS \<le> length (fields' s) then length (fields' s) else Suc (length (fields' s)))"
  by (simp add: handleAddField_def Let_def)

lemma length_add_all:
  "length (fields' (add_all cs s)) =
     (if MAX_FIELDS \<le> length (fields' s) then length (fields' s)
      else min MAX_FIELDS (length (fields' s) + length cs))"
proof (induction cs arbitrary: s)
  case Nil
  then show ?case by simp
next
  case (Cons c cs)
  obtain t now where c: "c = (t, now)" by (cases c)
  show ?case
    unfolding c add_all.simps Cons.IH length_handleAddField by auto
qed

lemma toString_MAX_FIELDS: "toString_nat MAX_FIELDS = ''10''"
  by (simp add: MAX_FIELDS_def toString_nat.simps digit_def)

text \<open>
  C1. Whatever palette entries are clicked, and whatever the clock reads, the list that
  starts empty never holds more than \<open>MAX_FIELDS\<close> fields; and a click on a state that
  already holds \<open>MAX_FIELDS\<close> fields or more changes nothing but the console, which
  gets the warning.
\<close>

theorem add_capped:
  "length (fields' (add_all cs initial)) \<le> MAX_FIELDS
   \<and> (MAX_FIELDS \<le> length (fields' s) \<longrightarrow>
        handleAddField t now s = s\<lparr>console := console s @ [''Maximum of 10 fields reached'']\<rparr>
        \<and> fields' (handleAddField t now s) = fields' s)"
proof -
  have "fields' initial = []" by (simp add: initial_def)
  then have "length (fields' (add_all cs initial)) \<le> MAX_FIELDS"
    by (simp add: length_add_all MAX_FIELDS_def)
  moreover have "handleAddField t now s = s\<lparr>console := console s @ [''Maximum of 10 fields reached'']\<rparr>"
    if "MAX_FIELDS \<le> length (fields' s)"
    using that by (simp add: handleAddField_def toString_MAX_FIELDS)
  ultimately show ?thesis by simp
qed

theorem add_capped_witness:
  "length (fields' (add_all (replicate 11 (availableFields ! 0, 1700000000000)) initial)) \<le> MAX_FIELDS
   \<and> MAX_FIELDS \<le> length (fields' (add_all (replicate 10 (availableFields ! 1, 42)) initial))
   \<and> handleAddField (availableFields ! 2) 43 (add_all (replicate 10 (availableFields ! 1, 42)) initial)
       = (add_all (replicate 10 (availableFields ! 1, 42)) initial)
           \<lparr>console := console (add_all (replicate 10 (availableFields ! 1, 42)) initial)
                         @ [''Maximum of 10 fields reached'']\<rparr>
   \<and> fields' (handleAddField (availableFields ! 2) 43 (add_all (replicate 10 (availableFields ! 1, 42)) initial))
       = fields' (add_all (replicate 10 (availableFields ! 1, 42)) initial)"
proof -
  have h: "MAX_FIELDS \<le> length (fields' (add_all (replicate 10 (availableFields ! 1, 42)) initial))"
    by (simp add: length_add_all initial_def MAX_FIELDS_def)
  show ?thesis
    using h add_capped [of "replicate 11 (availableFields ! 0, 1700000000000)"
        "add_all (replicate 10 (availableFields ! 1, 42)) initial" "availableFields ! 2" 43]
    by blast
qed

text \<open>
  C5, as amended. Below the cap, a click appends exactly one field and changes nothing
  else. The new
  field has the template's type, the template's label followed by a space and the
  position it takes (the old length plus one), and the template's class name; the
  class name its widget is given is the template's, or \<^verbatim>\<open>w-full\<close> when the template
  has none (or an empty one).
\<close>

theorem add_appends:
  assumes "length (fields' s) < MAX_FIELDS"
  shows "\<exists>n. handleAddField t now s = s\<lparr>fields' := fields' s @ [Some n]\<rparr>
           \<and> field_id n = field_id t @ ''-'' @ toString_int now
           \<and> field_type n = field_type t
           \<and> label n = label t @ '' '' @ toString_nat (length (fields' s) + 1)
           \<and> className n = className t
           \<and> widget_className (render n) =
               (case className t of None \<Rightarrow> ''w-full'' | Some c \<Rightarrow> if c = [] then ''w-full'' else c)"
proof -
  let ?n = "t\<lparr>field_id := field_id t @ ''-'' @ toString_int now,
               label := label t @ '' '' @ toString_nat (length (fields' s) + 1)\<rparr>"
  have "handleAddField t now s = s\<lparr>fields' := fields' s @ [Some ?n]\<rparr>"
    using assms by (simp add: handleAddField_def Let_def)
  moreover have "widget_className (render ?n) =
      (case className t of None \<Rightarrow> ''w-full'' | Some c \<Rightarrow> if c = [] then ''w-full'' else c)"
    by (cases "field_type t") (simp_all add: render_def or_string_def)
  ultimately show ?thesis by (intro exI [of _ ?n]) simp
qed


theorem add_appends_witness:
  "\<exists>n. handleAddField (availableFields ! 0) 1700000000000 initial
           = initial\<lparr>fields' := fields' initial @ [Some n]\<rparr>
       \<and> field_id n = ''text-1700000000000''
       \<and> field_type n = Text
       \<and> label n = ''Text Field 1''
       \<and> className n = None
       \<and> widget_className (render n) = ''w-full''"
  using add_appends [of initial "availableFields ! 0" 1700000000000]
  by (simp add: initial_def MAX_FIELDS_def availableFields_def toString_int_def
        toString_nat.simps digit_def)

text \<open>
  C5, as stated, fails on the class name that is stored: a palette entry has none, and
  the field created from it has none either, not \<^verbatim>\<open>w-full\<close>.
\<close>

theorem add_stores_template_className:
  "className (availableFields ! 0) = None
   \<and> fields' (handleAddField (availableFields ! 0) 1 initial)
     = [Some \<lparr>field_id = ''text-1'', field_type = Text, label = ''Text Field 1'', className = None\<rparr>]
   \<and> className \<lparr>field_id = ''text-1'', field_type = Text, label = ''Text Field 1'', className = None\<rparr>
     \<noteq> Some ''w-full''"
  by (simp add: initial_def MAX_FIELDS_def availableFields_def handleAddField_def Let_def
        toString_int_def toString_nat.simps digit_def)

text \<open>
  C3. Two clicks on the same palette entry that read the same clock value create two
  fields with the same id.
\<close>

theorem same_clock_same_id:
  "map (map_option field_id)
     (fields' (add_all [(availableFields ! 0, 1700000000000), (availableFields ! 0, 1700000000000)]
                 initial))
     = [Some ''text-1700000000000'', Some ''text-1700000000000'']
   \<and> \<not> distinct (map (map_option field_id)
           (fields' (add_all [(availableFields ! 0, 1700000000000), (availableFields ! 0, 1700000000000)]
                       initial)))"
  by (simp add: initial_def MAX_FIELDS_def availableFields_def handleAddField_def Let_def
        toString_int_def toString_nat.simps digit_def)

section \<open>Drops with an id that is not in the list\<close>



section \<open>The edit dialog\<close>

lemma find_index_of:
  "List.find (\<lambda>f. field_id f = i) fs =
     (if i \<in> field_id ` set fs then Some (fs ! index_of i fs) else None)"
  unfolding index_of_def by (induction fs) auto

lemma or_string_empty: "or_string c [] = (case c of None \<Rightarrow> [] | Some d \<Rightarrow> d)"
  by (simp add: or_string_def split: option.split)

lemma openEditModal_present:
  assumes "fields' s = map Some fs" "i \<in> field_id ` set fs"
  shows "openEditModal i s =
           Inr (s\<lparr>editingId := Some i,
                  editLabel := label (fs ! index_of i fs),
                  editType := field_type (fs ! index_of i fs),
                  editClass := (case className (fs ! index_of i fs) of None \<Rightarrow> [] | Some c \<Rightarrow> c),
                  showModal := True\<rparr>)"
  using assms by (simp add: openEditModal_def find_field_Some find_index_of or_string_empty)

lemma openEditModal_absent:
  assumes "fields' s = map Some fs" "i \<notin> field_id ` set fs"
  shows "openEditModal i s = Inr s"
  using assms by (simp add: openEditModal_def find_field_Some find_index_of)

text \<open>
  C8. \<^verbatim>\<open>openEditModal\<close> opens the dialog only for an id that is in the list: it then
  records the id and seeds the draft with the label and the type of the first field
  with that id, and with its class name, or the empty string when the field has none.
  For an id that is not in the list it changes nothing: a closed dialog stays closed
  and the draft is untouched.
\<close>

theorem open_seeds_draft:
  assumes "fields' s = map Some fs"
  shows "(i \<in> field_id ` set fs \<longrightarrow>
            index_of i fs < length fs \<and> field_id (fs ! index_of i fs) = i
            \<and> openEditModal i s =
                Inr (s\<lparr>editingId := Some i,
                       editLabel := label (fs ! index_of i fs),
                       editType := field_type (fs ! index_of i fs),
                       editClass := (case className (fs ! index_of i fs) of None \<Rightarrow> [] | Some c \<Rightarrow> c),
                       showModal := True\<rparr>))
       \<and> (i \<notin> field_id ` set fs \<longrightarrow> openEditModal i s = Inr s)"
  using assms
  by (simp add: openEditModal_present openEditModal_absent index_of_less index_of_nth)

theorem open_seeds_draft_witness:
  "openEditModal ''text-7'' (handleAddField (availableFields ! 0) 7 initial)
     = Inr ((handleAddField (availableFields ! 0) 7 initial)
          \<lparr>editingId := Some ''text-7'', editLabel := ''Text Field 1'', editType := Text,
           editClass := [], showModal := True\<rparr>)
   \<and> openEditModal ''2'' initial_part_000
     = Inr (initial_part_000
          \<lparr>editingId := Some ''2'', editLabel := ''Textarea Field'', editType := Textarea,
           editClass := ''w-full'', showModal := True\<rparr>)
   \<and> openEditModal ''text'' initial_part_000 = Inr initial_part_000"
proof -
  let ?f = "\<lparr>field_id = ''text-7'', field_type = Text, label = ''Text Field 1'', className = None\<rparr>"
  have a: "fields' (handleAddField (availableFields ! 0) 7 initial) = map Some [?f]"
    by (simp add: handleAddField_def initial_def MAX_FIELDS_def availableFields_def Let_def
          toString_int_def toString_nat.simps digit_def)
  have b: "fields' initial_part_000 = map Some initial_fields_part_000"
    by (simp add: initial_part_000_def)
  show ?thesis
    using open_seeds_draft [OF a, of "''text-7''"] open_seeds_draft [OF b, of "''2''"]
      open_seeds_draft [OF b, of "''text''"]
    by (simp add: index_of_def initial_fields_part_000_def)
qed

lemma handleSaveEdit_Some:
  assumes "fields' s = map Some fs"
  shows "handleSaveEdit s =
           Inr (s\<lparr>fields' := map Some (map (\<lambda>f. if Some (field_id f) = editingId s
                    then f\<lparr>label := editLabel s, field_type := editType s,
                           className := Some (editClass s)\<rparr>
                    else f) fs),
                  showModal := False\<rparr>)"
  using assms by (simp add: handleSaveEdit_def map_fields_Some)

lemma handleSaveEdit_part_000_Some:
  assumes "fields' s = map Some fs"
  shows "handleSaveEdit_part_000 s =
           Inr (s\<lparr>fields' := map Some (map (\<lambda>f. if Some (field_id f) = editingId s
                    then f\<lparr>label := editLabel s, field_type := editType s,
                           className := Some (editClass s)\<rparr>
                    else f) fs),
                  editingId := None, editLabel := [], editType := Text, editClass := [],
                  showModal := False\<rparr>)"
  using assms by (simp add: handleSaveEdit_part_000_def map_fields_Some)

text \<open>
  C6. Saving changes no field whose id differs from \<open>editingId\<close>, changes no field's id,
  and keeps the length and the order of the list; when no field has the id
  \<open>editingId\<close> (or \<open>editingId\<close> is \<^verbatim>\<open>null\<close>) the list is the same, and in every case the
  dialog is closed afterwards. The component of \<^verbatim>\<open>part_000\<close> writes the same list and
  also resets the draft.
\<close>

theorem save_frame:
  assumes "fields' s = map Some fs"
  shows "\<exists>fs'. handleSaveEdit s = Inr (s\<lparr>fields' := map Some fs', showModal := False\<rparr>)
           \<and> handleSaveEdit_part_000 s =
               Inr (s\<lparr>fields' := map Some fs', editingId := None, editLabel := [],
                      editType := Text, editClass := [], showModal := False\<rparr>)
           \<and> length fs' = length fs
           \<and> (\<forall>k < length fs. field_id (fs' ! k) = field_id (fs ! k)
                  \<and> (Some (field_id (fs ! k)) \<noteq> editingId s \<longrightarrow> fs' ! k = fs ! k))
           \<and> (editingId s \<notin> Some ` field_id ` set fs \<longrightarrow> fs' = fs)"
proof -
  let ?g = "\<lambda>f. if Some (field_id f) = editingId s
                 then f\<lparr>label := editLabel s, field_type := editType s,
                        className := Some (editClass s)\<rparr>
                 else f"
  have 1: "handleSaveEdit s = Inr (s\<lparr>fields' := map Some (map ?g fs), showModal := False\<rparr>)"
    using assms by (rule handleSaveEdit_Some)
  have 2: "handleSaveEdit_part_000 s =
      Inr (s\<lparr>fields' := map Some (map ?g fs), editingId := None, editLabel := [],
             editType := Text, editClass := [], showModal := False\<rparr>)"
    using assms by (rule handleSaveEdit_part_000_Some)
  have 3: "length (map ?g fs) = length fs" by simp
  have 4: "\<forall>k < length fs. field_id (map ?g fs ! k) = field_id (fs ! k)
             \<and> (Some (field_id (fs ! k)) \<noteq> editingId s \<longrightarrow> map ?g fs ! k = fs ! k)"
    by simp
  have 5: "editingId s \<notin> Some ` field_id ` set fs \<longrightarrow> map ?g fs = fs"
  proof
    assume "editingId s \<notin> Some ` field_id ` set fs"
    then have "\<forall>f \<in> set fs. Some (field_id f) \<noteq> editingId s"
      by (metis imageI)
    then have "\<forall>f \<in> set fs. ?g f = f" by simp
    then show "map ?g fs = fs" by (simp add: map_idI)
  qed
  from 1 2 3 4 5 show ?thesis by blast
qed


theorem save_frame_witness:
  "(\<exists>fs'. handleSaveEdit
            (initial_part_000\<lparr>editingId := Some ''2'', editLabel := ''Notes'', editType := Text,
               editClass := ''w-1/2'', showModal := True\<rparr>)
          = Inr (initial_part_000\<lparr>editingId := Some ''2'', editLabel := ''Notes'', editType := Text,
               editClass := ''w-1/2'', showModal := True, fields' := map Some fs',
               showModal := False\<rparr>)
        \<and> length fs' = 3
        \<and> fs' ! 0 = initial_fields_part_000 ! 0
        \<and> field_id (fs' ! 1) = ''2''
        \<and> fs' ! 2 = initial_fields_part_000 ! 2)
   \<and> (\<exists>fs'. handleSaveEdit
            (initial_part_000\<lparr>editingId := Some ''gone'', editLabel := ''Notes'', showModal := True\<rparr>)
          = Inr (initial_part_000\<lparr>editingId := Some ''gone'', editLabel := ''Notes'',
               showModal := True, fields' := map Some fs', showModal := False\<rparr>)
        \<and> fs' = initial_fields_part_000)"
proof -
  let ?s = "initial_part_000\<lparr>editingId := Some ''2'', editLabel := ''Notes'', editType := Text,
               editClass := ''w-1/2'', showModal := True\<rparr>"
  let ?t = "initial_part_000\<lparr>editingId := Some ''gone'', editLabel := ''Notes'', showModal := True\<rparr>"
  have hs: "fields' ?s = map Some initial_fields_part_000"
    and ht: "fields' ?t = map Some initial_fields_part_000"
    by (simp_all add: initial_part_000_def)
  have n: "length initial_fields_part_000 = 3"
    by (simp add: initial_fields_part_000_def)
  from save_frame [OF hs] obtain fs' where
    e: "handleSaveEdit ?s = Inr (?s\<lparr>fields' := map Some fs', showModal := False\<rparr>)"
    and l: "length fs' = length initial_fields_part_000"
    and fr: "\<forall>k < length initial_fields_part_000.
        field_id (fs' ! k) = field_id (initial_fields_part_000 ! k)
        \<and> (Some (field_id (initial_fields_part_000 ! k)) \<noteq> editingId ?s
             \<longrightarrow> fs' ! k = initial_fields_part_000 ! k)"
    by blast
  have k0: "fs' ! 0 = initial_fields_part_000 ! 0"
    using fr [rule_format, of 0] by (simp add: initial_fields_part_000_def)
  have k1: "field_id (fs' ! 1) = ''2''"
    using fr [rule_format, of 1] by (simp add: initial_fields_part_000_def)
  have k2: "fs' ! 2 = initial_fields_part_000 ! 2"
    using fr [rule_format, of 2] by (simp add: initial_fields_part_000_def)
  from save_frame [OF ht] obtain gs' where
    e': "handleSaveEdit ?t = Inr (?t\<lparr>fields' := map Some gs', showModal := False\<rparr>)"
    and ab: "editingId ?t \<notin> Some ` field_id ` set initial_fields_part_000
               \<longrightarrow> gs' = initial_fields_part_000"
    by blast
  have "gs' = initial_fields_part_000"
    using ab by (simp add: initial_fields_part_000_def image_iff)
  with e' e l n k0 k1 k2 show ?thesis by auto
qed

lemma render_className:
  "widget_className (render f) = or_string (className f) ''w-full''"
  by (cases "field_type f") (simp_all add: render_def)

lemma edit_label_fields:
  assumes s: "fields' s = map Some fs" and k: "k < length fs"
    and first: "index_of (field_id (fs ! k)) fs = k"
  shows "edit_label (field_id (fs ! k)) v s =
           Inr (s\<lparr>editingId := Some (field_id (fs ! k)),
                  editLabel := v,
                  editType := field_type (fs ! k),
                  editClass := (case className (fs ! k) of None \<Rightarrow> [] | Some c \<Rightarrow> c),
                  showModal := False,
                  fields' := map Some (map (\<lambda>f. if field_id f = field_id (fs ! k)
                     then f\<lparr>label := v, field_type := field_type (fs ! k),
                            className := Some (case className (fs ! k) of None \<Rightarrow> [] | Some c \<Rightarrow> c)\<rparr>
                     else f) fs)\<rparr>)"
proof -
  have m: "field_id (fs ! k) \<in> field_id ` set fs" using k by simp
  show ?thesis
    unfolding edit_label_def openEditModal_present [OF s m] first
    by (simp add: and_then_def setEditLabel_def handleSaveEdit_Some [of _ fs] s)
qed

lemma edit_label_part_000_fields:
  assumes s: "fields' s = map Some fs" and k: "k < length fs"
    and first: "index_of (field_id (fs ! k)) fs = k"
  shows "edit_label_part_000 (field_id (fs ! k)) v s =
           Inr (s\<lparr>editingId := None, editLabel := [], editType := Text, editClass := [],
                  showModal := False,
                  fields' := map Some (map (\<lambda>f. if field_id f = field_id (fs ! k)
                     then f\<lparr>label := v, field_type := field_type (fs ! k),
                            className := Some (case className (fs ! k) of None \<Rightarrow> [] | Some c \<Rightarrow> c)\<rparr>
                     else f) fs)\<rparr>)"
proof -
  have m: "field_id (fs ! k) \<in> field_id ` set fs" using k by simp
  show ?thesis
    unfolding edit_label_part_000_def openEditModal_present [OF s m] first
    by (simp add: and_then_def setEditLabel_def handleSaveEdit_part_000_Some [of _ fs] s)
qed

text \<open>
  C7, as amended. For the first field with its id (every field, when ids are distinct),
  opening the dialog on it, typing a label and saving gives a field with the new label
  and with its id and type unchanged. Its class name is unchanged when it had one;
  when it had none it becomes the empty string, and the class name its widget is given
  is the same as before.
\<close>

theorem edit_label_only:
  assumes "fields' s = map Some fs" "k < length fs" "index_of (field_id (fs ! k)) fs = k"
  shows "\<exists>fs'. (\<exists>s'. edit_label (field_id (fs ! k)) v s = Inr s' \<and> fields' s' = map Some fs')
           \<and> (\<exists>s'. edit_label_part_000 (field_id (fs ! k)) v s = Inr s' \<and> fields' s' = map Some fs')
           \<and> length fs' = length fs
           \<and> field_id (fs' ! k) = field_id (fs ! k)
           \<and> label (fs' ! k) = v
           \<and> field_type (fs' ! k) = field_type (fs ! k)
           \<and> className (fs' ! k) = Some (case className (fs ! k) of None \<Rightarrow> [] | Some c \<Rightarrow> c)
           \<and> widget_className (render (fs' ! k)) = widget_className (render (fs ! k))"
proof -
  let ?c = "case className (fs ! k) of None \<Rightarrow> [] | Some c \<Rightarrow> c"
  let ?g = "\<lambda>f. if field_id f = field_id (fs ! k)
                 then f\<lparr>label := v, field_type := field_type (fs ! k), className := Some ?c\<rparr>
                 else f"
  let ?fs' = "map ?g fs"
  have 1: "\<exists>s'. edit_label (field_id (fs ! k)) v s = Inr s' \<and> fields' s' = map Some ?fs'"
    unfolding edit_label_fields [OF assms] by simp
  have 2: "\<exists>s'. edit_label_part_000 (field_id (fs ! k)) v s = Inr s' \<and> fields' s' = map Some ?fs'"
    unfolding edit_label_part_000_fields [OF assms] by simp
  have at_k: "?fs' ! k = (fs ! k)\<lparr>label := v, field_type := field_type (fs ! k), className := Some ?c\<rparr>"
    using assms(2) by simp
  have 3: "length ?fs' = length fs" by simp
  have 4: "field_id (?fs' ! k) = field_id (fs ! k)" unfolding at_k by simp
  have 5: "label (?fs' ! k) = v" unfolding at_k by simp
  have 6: "field_type (?fs' ! k) = field_type (fs ! k)" unfolding at_k by simp
  have 7: "className (?fs' ! k) = Some ?c" unfolding at_k by simp
  have 8: "widget_className (render (?fs' ! k)) = widget_className (render (fs ! k))"
    unfolding render_className 7 by (simp add: or_string_def split: option.split)
  from 1 2 3 4 5 6 7 8 show ?thesis by blast
qed


theorem edit_label_only_witness:
  "\<exists>fs'. (\<exists>s'. edit_label ''2'' ''Notes'' initial_part_000 = Inr s' \<and> fields' s' = map Some fs')
       \<and> (\<exists>s'. edit_label_part_000 ''2'' ''Notes'' initial_part_000 = Inr s'
              \<and> fields' s' = map Some fs')
       \<and> length fs' = 3
       \<and> field_id (fs' ! 1) = ''2''
       \<and> label (fs' ! 1) = ''Notes''
       \<and> field_type (fs' ! 1) = Textarea
       \<and> className (fs' ! 1) = Some ''w-full''
       \<and> widget_className (render (fs' ! 1)) = ''w-full''"
proof -
  have 1: "fields' initial_part_000 = map Some initial_fields_part_000"
    by (simp add: initial_part_000_def)
  have 2: "1 < length initial_fields_part_000"
    by (simp add: initial_fields_part_000_def)
  have 3: "index_of (field_id (initial_fields_part_000 ! 1)) initial_fields_part_000 = 1"
    by (simp add: initial_fields_part_000_def index_of_def)
  have 4: "initial_fields_part_000 ! 1 =
      \<lparr>field_id = ''2'', field_type = Textarea, label = ''Textarea Field'', className = Some ''w-full''\<rparr>"
    by (simp add: initial_fields_part_000_def)
  have 5: "length initial_fields_part_000 = 3"
    by (simp add: initial_fields_part_000_def)
  show ?thesis
    using edit_label_only [OF 1 2 3, of "''Notes''"]
    unfolding 4 5 by (simp add: render_def or_string_def)
qed

text \<open>
  C7, as stated, fails on a field that has no class name, such as every field the
  palette creates: after the edit its class name is the empty string.
\<close>

theorem edit_label_fills_absent_className:
  "fields' (handleAddField (availableFields ! 0) 1 initial)
     = [Some \<lparr>field_id = ''text-1'', field_type = Text, label = ''Text Field 1'', className = None\<rparr>]
   \<and> edit_label ''text-1'' ''X'' (handleAddField (availableFields ! 0) 1 initial)
     = Inr ((handleAddField (availableFields ! 0) 1 initial)
         \<lparr>editingId := Some ''text-1'', editLabel := ''X'', editType := Text, editClass := [],
          showModal := False,
          fields' := [Some \<lparr>field_id = ''text-1'', field_type = Text, label = ''X'',
                             className = Some []\<rparr>]\<rparr>)
   \<and> className \<lparr>field_id = ''text-1'', field_type = Text, label = ''X'', className = Some []\<rparr>
     \<noteq> className \<lparr>field_id = ''text-1'', field_type = Text, label = ''Text Field 1'', className = None\<rparr>"
  by (simp add: initial_def MAX_FIELDS_def availableFields_def handleAddField_def Let_def
        toString_int_def toString_nat.simps digit_def edit_label_def openEditModal_def
        and_then_def setEditLabel_def handleSaveEdit_def or_string_def)

section \<open>What a drop preserves\<close>












text \<open>
  In \<^verbatim>\<open>page.tsx\<close> the area around the fields is a drop target of its own, with the id
  \<^verbatim>\<open>form-area\<close>; a field dropped there goes to the end of the list.
\<close>

lemma drop_on_form_area_moves_to_end:
  "handleDragEnd ''text-1'' (Some ''form-area'')
        (add_all [(availableFields ! 0, 1), (availableFields ! 2, 2)] initial)
     = Inr ((add_all [(availableFields ! 0, 1), (availableFields ! 2, 2)] initial)
         \<lparr>activeId := None,
          fields' :=
            [Some \<lparr>field_id = ''date-2'', field_type = Date, label = ''Date Field 2'', className = None\<rparr>,
             Some \<lparr>field_id = ''text-1'', field_type = Text, label = ''Text Field 1'', className = None\<rparr>]\<rparr>)"
  by (simp add: initial_def MAX_FIELDS_def availableFields_def handleAddField_def Let_def
        toString_int_def toString_nat.simps digit_def handleDragEnd_def findIndex_def
        arrayMove_def array_splice_def)

end
